theory Spec2Isabelle
  imports Main "HOL-Library.Sublist"
begin

section \<open>The pNode statistics bot: RPC client and report aggregation\<close>

text \<open>
  A shallow embedding of \<^verbatim>\<open>index.js\<close>: the JSON-RPC helper \<^verbatim>\<open>rpcCall\<close>, the shape guard
  \<^verbatim>\<open>extractPods\<close>, the two queries \<^verbatim>\<open>getPodsByVersion\<close> and \<^verbatim>\<open>getTotalPods\<close>, and the
  aggregator \<^verbatim>\<open>getPNodesInfo\<close>. The Discord client and its event handlers are outside the
  model. A \<^verbatim>\<open>throw\<close> (or a rejected promise) is the left injection of a sum, a returned value (or
  a fulfilled promise) the right one.
\<close>

subsection \<open>Values\<close>

text \<open>
  The values the program handles are the ones \<^verbatim>\<open>res.json()\<close> can produce, and
  \<^verbatim>\<open>undefined\<close>, which a read of an absent property yields. An object is the list of its own
  properties; a key is looked up with \<^const>\<open>map_of\<close>. Numbers are modelled as integers (on
  this wire: counts, status and error codes), rendered in plain decimal as JavaScript renders
  an integer of magnitude below \<open>10\<^sup>2\<^sup>1\<close>.
\<close>

datatype jsval =
    JUndefined
  | JNull
  | JBool bool
  | JNum int
  | JStr string
  | JArr "jsval list"
  | JObj "(string \<times> jsval) list"

text \<open>What is thrown: always an \<^verbatim>\<open>Error\<close> object, of which only \<^verbatim>\<open>message\<close> is ever read.\<close>

datatype error =
    Error string
  | TypeError string
  | FetchError string

fun message :: "error \<Rightarrow> string" where
  "message (Error m) = m"
| "message (TypeError m) = m"
| "message (FetchError m) = m"

text \<open>Truthiness, as tested by \<^verbatim>\<open>if (x)\<close> and \<^verbatim>\<open>x && y\<close>.\<close>

fun truthy :: "jsval \<Rightarrow> bool" where
  "truthy JUndefined = False"
| "truthy JNull = False"
| "truthy (JBool b) = b"
| "truthy (JNum n) = (n \<noteq> 0)"
| "truthy (JStr s) = (s \<noteq> [])"
| "truthy (JArr vs) = True"
| "truthy (JObj kvs) = True"

text \<open>
  The property read \<^verbatim>\<open>v.k\<close>, for the keys this program reads (\<^verbatim>\<open>error\<close>, \<^verbatim>\<open>result\<close>,
  \<^verbatim>\<open>code\<close>, \<^verbatim>\<open>message\<close>, \<^verbatim>\<open>pods\<close>, \<^verbatim>\<open>total_count\<close>, \<^verbatim>\<open>version\<close>), none of which a
  prototype defines: it throws on \<^verbatim>\<open>null\<close> and \<^verbatim>\<open>undefined\<close>, finds an object's own property,
  and is \<^verbatim>\<open>undefined\<close> everywhere else.
\<close>

fun get :: "jsval \<Rightarrow> string \<Rightarrow> error + jsval" where
  "get (JObj kvs) k = Inr (case map_of kvs k of Some v \<Rightarrow> v | None \<Rightarrow> JUndefined)"
| "get JUndefined k =
     Inl (TypeError (''Cannot read properties of undefined (reading '' @ [CHR 0x27] @ k @ [CHR 0x27] @ '')''))"
| "get JNull k =
     Inl (TypeError (''Cannot read properties of null (reading '' @ [CHR 0x27] @ k @ [CHR 0x27] @ '')''))"
| "get v k = Inr JUndefined"

subsection \<open>Conversion to text\<close>

definition digit_char :: "nat \<Rightarrow> char" where
  "digit_char d =
     (if d = 0 then CHR ''0'' else if d = 1 then CHR ''1'' else if d = 2 then CHR ''2''
      else if d = 3 then CHR ''3'' else if d = 4 then CHR ''4'' else if d = 5 then CHR ''5''
      else if d = 6 then CHR ''6'' else if d = 7 then CHR ''7'' else if d = 8 then CHR ''8''
      else CHR ''9'')"

fun show_nat :: "nat \<Rightarrow> string" where
  "show_nat n = (if n < 10 then [digit_char n] else show_nat (n div 10) @ [digit_char (n mod 10)])"

declare show_nat.simps [simp del]

definition show_int :: "int \<Rightarrow> string" where
  "show_int i = (if i < 0 then ''-'' @ show_nat (nat (- i)) else show_nat (nat i))"

text \<open>
  \<^verbatim>\<open>String(v)\<close> and the interpolation \<^verbatim>\<open>${v}\<close>. An array is joined with commas, an
  \<^verbatim>\<open>undefined\<close> or \<^verbatim>\<open>null\<close> element giving the empty text. An object parsed from JSON has no
  callable property of its own: with an own \<^verbatim>\<open>toString\<close> key the conversion finds nothing to
  call that returns a primitive and throws; without one, \<^verbatim>\<open>Object.prototype.toString\<close> answers.
\<close>

fun ToString :: "jsval \<Rightarrow> error + string"
  and join :: "jsval list \<Rightarrow> error + string" where
  "ToString JUndefined = Inr ''undefined''"
| "ToString JNull = Inr ''null''"
| "ToString (JBool b) = Inr (if b then ''true'' else ''false'')"
| "ToString (JNum n) = Inr (show_int n)"
| "ToString (JStr s) = Inr s"
| "ToString (JArr vs) = join vs"
| "ToString (JObj kvs) =
     (if map_of kvs ''toString'' \<noteq> None
      then Inl (TypeError ''Cannot convert object to primitive value'')
      else Inr ''[object Object]'')"
| "join [] = Inr ''''"
| "join (v # vs) =
     (case (if v = JUndefined \<or> v = JNull then Inr '''' else ToString v) of
        Inl e \<Rightarrow> Inl e
      | Inr s \<Rightarrow>
          (if vs = [] then Inr s
           else (case join vs of Inl e \<Rightarrow> Inl e | Inr t \<Rightarrow> Inr (s @ '','' @ t))))"

text \<open>\<^verbatim>\<open>s.includes(f)\<close>: does \<open>f\<close> occur in \<open>s\<close> as a contiguous run of characters.\<close>

fun str_includes :: "string \<Rightarrow> string \<Rightarrow> bool" where
  "str_includes [] f = (f = [])"
| "str_includes (c # s) f = (prefix f (c # s) \<or> str_includes s f)"

subsection \<open>The JSON-RPC helper\<close>

record payload =
  jsonrpc :: string
  rpc_id :: nat
  rpc_method :: string
  rpc_params :: "jsval list"

record http_request =
  url :: string
  http_method :: string
  headers :: "(string \<times> string) list"
  body :: payload

text \<open>
  The response as \<^verbatim>\<open>node-fetch\<close> presents it; \<open>json\<close> is what \<^verbatim>\<open>res.json()\<close> settles to, a
  rejection when the body is not JSON.
\<close>

record response =
  ok :: bool
  status :: nat
  statusText :: string
  json :: "error + jsval"

text \<open>The network: \<^verbatim>\<open>fetch\<close> rejects (connection refused, say) or resolves with a response.\<close>

type_synonym transport = "http_request \<Rightarrow> error + response"

definition RPC_URL :: string where
  "RPC_URL = ''http://127.0.0.1:6000/rpc''"

definition rpc_request :: "nat \<Rightarrow> string \<Rightarrow> jsval list \<Rightarrow> http_request" where
  "rpc_request now method params =
     \<lparr>url = RPC_URL, http_method = ''POST'',
      headers = [(''Content-Type'', ''application/json'')],
      body = \<lparr>jsonrpc = ''2.0'', rpc_id = now, rpc_method = method, rpc_params = params\<rparr>\<rparr>"

text \<open>
  \<^verbatim>\<open>rpcCall(method, params)\<close>, given the network and the reading of \<^verbatim>\<open>Date.now()\<close>.
\<close>

definition rpcCall :: "transport \<Rightarrow> nat \<Rightarrow> string \<Rightarrow> jsval list \<Rightarrow> error + jsval" where
  "rpcCall fetch now method params =
     (case fetch (rpc_request now method params) of
        Inl e \<Rightarrow> Inl e
      | Inr res \<Rightarrow>
          if \<not> ok res
          then Inl (Error (''RPC request failed: '' @ show_nat (status res) @ '' '' @ statusText res))
          else (case json res of
                  Inl e \<Rightarrow> Inl e
                | Inr data \<Rightarrow>
                    (case get data ''error'' of
                       Inl e \<Rightarrow> Inl e
                     | Inr err \<Rightarrow>
                         if truthy err
                         then (case get err ''code'' of
                                 Inl e \<Rightarrow> Inl e
                               | Inr c \<Rightarrow>
                                   (case ToString c of
                                      Inl e \<Rightarrow> Inl e
                                    | Inr code \<Rightarrow>
                                        (case get err ''message'' of
                                           Inl e \<Rightarrow> Inl e
                                         | Inr m \<Rightarrow>
                                             (case ToString m of
                                                Inl e \<Rightarrow> Inl e
                                              | Inr msg \<Rightarrow>
                                                  Inl (Error (''RPC error ('' @ code @ ''): '' @ msg))))))
                         else get data ''result'')))"

subsection \<open>Pulling the pod array out of the RPC result\<close>

text \<open>
  A line written by \<^verbatim>\<open>console.warn\<close>: the label and the value logged with it (the model keeps
  the value itself in place of its \<^verbatim>\<open>JSON.stringify\<close> text).
\<close>

datatype diagnostic = Warn string jsval

text \<open>\<^verbatim>\<open>extractPods\<close> returns the array together with what it wrote to the console.\<close>

definition extractPods :: "jsval \<Rightarrow> error + (jsval list \<times> diagnostic list)" where
  "extractPods rpcResult =
     (let unexpected = Inr ([], [Warn ''extractPods: unexpected RPC shape'' rpcResult]) in
      if truthy rpcResult
      then (case get rpcResult ''pods'' of
              Inl e \<Rightarrow> Inl e
            | Inr (JArr pods) \<Rightarrow> Inr (pods, [])
            | Inr v \<Rightarrow> unexpected)
      else unexpected)"

subsection \<open>The two queries\<close>

text \<open>
  The predicate of the \<^verbatim>\<open>filter\<close> call may throw; the first entry at which it does, in array
  order, ends the traversal with that failure.
\<close>

fun filter_js :: "('a \<Rightarrow> error + bool) \<Rightarrow> 'a list \<Rightarrow> error + 'a list" where
  "filter_js p [] = Inr []"
| "filter_js p (x # xs) =
     (case p x of
        Inl e \<Rightarrow> Inl e
      | Inr b \<Rightarrow>
          (case filter_js p xs of
             Inl e \<Rightarrow> Inl e
           | Inr ys \<Rightarrow> Inr (if b then x # ys else ys)))"

text \<open>\<^verbatim>\<open>String(pod.version)\<close>.\<close>

definition version_text :: "jsval \<Rightarrow> error + string" where
  "version_text pod = (case get pod ''version'' of Inl e \<Rightarrow> Inl e | Inr v \<Rightarrow> ToString v)"

text \<open>
  The counting step of \<^verbatim>\<open>getPodsByVersion\<close>, everything after the RPC call has returned
  \<open>rpcResult\<close>. What \<^verbatim>\<open>extractPods\<close> wrote to the console is not part of the returned value.
\<close>

definition countByFragment :: "jsval \<Rightarrow> string \<Rightarrow> error + nat" where
  "countByFragment rpcResult versionFragment =
     (case extractPods rpcResult of
        Inl e \<Rightarrow> Inl e
      | Inr (podsArray, log) \<Rightarrow>
          (case filter_js
                  (\<lambda>pod. case version_text pod of
                            Inl e \<Rightarrow> Inl e
                          | Inr s \<Rightarrow> Inr (str_includes s versionFragment))
                  podsArray of
             Inl e \<Rightarrow> Inl e
           | Inr matching \<Rightarrow> Inr (length matching)))"

text \<open>The step of \<^verbatim>\<open>getTotalPods\<close> after the RPC call has returned \<open>rpcResult\<close>.\<close>

definition totalCount :: "jsval \<Rightarrow> error + int" where
  "totalCount rpcResult =
     (let fallback =
            (case extractPods rpcResult of
               Inl e \<Rightarrow> Inl e
             | Inr (podsArray, log) \<Rightarrow> Inr (int (length podsArray))) in
      if truthy rpcResult
      then (case get rpcResult ''total_count'' of
              Inl e \<Rightarrow> Inl e
            | Inr (JNum n) \<Rightarrow> Inr n
            | Inr v \<Rightarrow> fallback)
      else fallback)"

text \<open>
  What one of the four concurrent calls meets: the reading of \<^verbatim>\<open>Date.now()\<close> when it builds
  its request, how the network answers it, and the instant at which its promise settles.
\<close>

record call_env =
  clock :: nat
  network :: transport
  settles_at :: nat

definition getPodsByVersion :: "call_env \<Rightarrow> string \<Rightarrow> error + nat" where
  "getPodsByVersion env versionFragment =
     (case rpcCall (network env) (clock env) ''get-pods'' [] of
        Inl e \<Rightarrow> Inl e
      | Inr rpcResult \<Rightarrow> countByFragment rpcResult versionFragment)"

definition getTotalPods :: "call_env \<Rightarrow> error + int" where
  "getTotalPods env =
     (case rpcCall (network env) (clock env) ''get-pods'' [] of
        Inl e \<Rightarrow> Inl e
      | Inr rpcResult \<Rightarrow> totalCount rpcResult)"

subsection \<open>The aggregator\<close>

text \<open>
  \<^verbatim>\<open>Promise.all\<close> over four promises, each given with the instant at which it settles. It
  fulfils with the four values, in the order of the array, when all four fulfil; otherwise it
  rejects with the rejection that settles first (the earlier position in the array on a tie).
\<close>

fun rejection :: "nat \<times> (error + 'a) \<Rightarrow> (nat \<times> error) list" where
  "rejection (t, Inl e) = [(t, e)]"
| "rejection (t, Inr v) = []"

fun earliest :: "nat \<times> error \<Rightarrow> (nat \<times> error) list \<Rightarrow> error" where
  "earliest (t, e) [] = e"
| "earliest (t, e) ((t', e') # rs) =
     (if t' < t then earliest (t', e') rs else earliest (t, e) rs)"

definition Promise_all ::
  "nat \<times> (error + 'a) \<Rightarrow> nat \<times> (error + 'b) \<Rightarrow> nat \<times> (error + 'c) \<Rightarrow> nat \<times> (error + 'd)
     \<Rightarrow> error + ('a \<times> 'b \<times> 'c \<times> 'd)" where
  "Promise_all p1 p2 p3 p4 =
     (case snd p1 of
        Inl e1 \<Rightarrow> Inl (earliest (fst p1, e1) (rejection p2 @ rejection p3 @ rejection p4))
      | Inr a \<Rightarrow>
          (case snd p2 of
             Inl e2 \<Rightarrow> Inl (earliest (fst p2, e2) (rejection p3 @ rejection p4))
           | Inr b \<Rightarrow>
               (case snd p3 of
                  Inl e3 \<Rightarrow> Inl (earliest (fst p3, e3) (rejection p4))
                | Inr c \<Rightarrow>
                    (case snd p4 of
                       Inl e4 \<Rightarrow> Inl e4
                     | Inr d \<Rightarrow> Inr (a, b, c, d)))))"

text \<open>\<^verbatim>\<open>getPNodesInfo\<close>, given what each of its four calls meets.\<close>

definition getPNodesInfo :: "call_env \<Rightarrow> call_env \<Rightarrow> call_env \<Rightarrow> call_env \<Rightarrow> string" where
  "getPNodesInfo env1 env2 env3 env4 =
     (case Promise_all
             (settles_at env1, getPodsByVersion env1 ''0.4.0'')
             (settles_at env2, getPodsByVersion env2 ''0.4.1'')
             (settles_at env3, getPodsByVersion env3 ''0.4.2'')
             (settles_at env4, getTotalPods env4) of
        Inr (count040, count041, count042, total_pods) \<Rightarrow>
          ''```ml\<newline>'' @
          ''pNodes Version: Counts\<newline>'' @
          ''       `0.4.0`:      '' @ show_nat count040 @ ''\<newline>'' @
          ''       `0.4.1`:      '' @ show_nat count041 @ ''\<newline>'' @
          ''       `0.4.2`:    '' @ show_nat count042 @ ''\<newline>'' @
          ''         Total:    '' @ show_int total_pods @ ''\<newline>'' @
          ''```''
      | Inl err \<Rightarrow> ''Error retrieving data: '' @ message err)"

text \<open>A network that answers every request alike, and the answer of a healthy endpoint.\<close>

definition always :: "error + response \<Rightarrow> transport" where
  "always answer = (\<lambda>request. answer)"

definition http_ok :: "jsval \<Rightarrow> error + response" where
  "http_ok data = Inr \<lparr>ok = True, status = 200, statusText = ''OK'', json = Inr data\<rparr>"

text \<open>The RPC result of the specification's worked example: four pods and a counter of 4.\<close>

definition example_pods :: jsval where
  "example_pods =
     JObj [(''pods'', JArr [JObj [(''version'', JStr ''0.4.0'')], JObj [(''version'', JStr ''0.4.1'')],
                            JObj [(''version'', JStr ''0.4.1'')], JObj [(''version'', JStr ''0.4.2'')]]),
           (''total_count'', JNum 4)]"

text \<open>
  The values \<^verbatim>\<open>String\<close> converts without throwing: every primitive, an object that has no
  own \<^verbatim>\<open>toString\<close> key, an array of such values.
\<close>

fun convertible :: "jsval \<Rightarrow> bool" where
  "convertible (JArr vs) = (\<forall>v\<in>set vs. convertible v)"
| "convertible (JObj kvs) = (map_of kvs ''toString'' = None)"
| "convertible v = True"

text \<open>
  Two pods: one of version \<^verbatim>\<open>0.4.10\<close>, in which the fragment \<^verbatim>\<open>0.4.1\<close> occurs, and one whose
  version text holds two of the reported fragments.
\<close>

definition overlap_pods :: jsval where
  "overlap_pods =
     JObj [(''pods'', JArr [JObj [(''version'', JStr ''0.4.10'')],
                            JObj [(''version'', JStr ''0.4.0-0.4.2'')]])]"

text \<open>Two more answers of the endpoint: a status that is not a success, and an RPC error body.\<close>

definition http_failure :: "nat \<Rightarrow> string \<Rightarrow> error + response" where
  "http_failure code reason = Inr \<lparr>ok = False, status = code, statusText = reason, json = Inr JNull\<rparr>"

definition rpc_error :: "int \<Rightarrow> string \<Rightarrow> jsval" where
  "rpc_error code text = JObj [(''error'', JObj [(''code'', JNum code), (''message'', JStr text)])]"


section \<open>Properties\<close>

subsection \<open>Auxiliary facts\<close>

lemma str_includes_sublist: "str_includes s f = sublist f s"
  by (induction s) (simp_all add: sublist_Cons_right)

lemma str_includes_iff: "str_includes s f \<longleftrightarrow> (\<exists>pre post. s = pre @ f @ post)"
  by (simp add: str_includes_sublist sublist_def)

lemma get_truthy: "truthy v \<Longrightarrow> \<exists>w. get v k = Inr w"
  by (cases v) simp_all

lemma get_defined: "v \<noteq> JNull \<Longrightarrow> v \<noteq> JUndefined \<Longrightarrow> \<exists>w. get v k = Inr w"
  by (cases v) simp_all

lemma get_array_truthy: "get v k = Inr (JArr pods) \<Longrightarrow> truthy v"
  by (cases v) simp_all

lemma get_number_truthy: "get v k = Inr (JNum n) \<Longrightarrow> truthy v"
  by (cases v) simp_all

lemma extractPods_array:
  "get rpcResult ''pods'' = Inr (JArr pods) \<Longrightarrow> extractPods rpcResult = Inr (pods, [])"
  by (simp add: extractPods_def get_array_truthy)

lemma extractPods_other:
  "\<not> (\<exists>pods. get rpcResult ''pods'' = Inr (JArr pods)) \<Longrightarrow>
   extractPods rpcResult = Inr ([], [Warn ''extractPods: unexpected RPC shape'' rpcResult])"
proof (cases "truthy rpcResult")
  case False
  then show ?thesis by (simp add: extractPods_def)
next
  case True
  assume none: "\<not> (\<exists>pods. get rpcResult ''pods'' = Inr (JArr pods))"
  from True obtain w where w: "get rpcResult ''pods'' = Inr w"
    using get_truthy by blast
  with none have "\<forall>pods. w \<noteq> JArr pods" by simp
  with True w show ?thesis
    by (cases w) (simp_all add: extractPods_def)
qed

lemma extractPods_returns: "\<exists>pods log. extractPods rpcResult = Inr (pods, log)"
  using extractPods_array extractPods_other by blast

lemma totalCount_number:
  "get rpcResult ''total_count'' = Inr (JNum n) \<Longrightarrow> totalCount rpcResult = Inr n"
  by (simp add: totalCount_def get_number_truthy)

lemma totalCount_fallback:
  assumes "\<not> (\<exists>n. get rpcResult ''total_count'' = Inr (JNum n))"
    and "extractPods rpcResult = Inr (pods, log)"
  shows "totalCount rpcResult = Inr (int (length pods))"
proof (cases "truthy rpcResult")
  case False
  with assms(2) show ?thesis by (simp add: totalCount_def)
next
  case True
  then obtain w where w: "get rpcResult ''total_count'' = Inr w"
    using get_truthy by blast
  with assms(1) have "\<forall>n. w \<noteq> JNum n" by simp
  with True w assms(2) show ?thesis
    by (cases w) (simp_all add: totalCount_def)
qed

lemma rpcCall_http_ok:
  "rpcCall (always (http_ok data)) now method params =
     (case get data ''error'' of
        Inl e \<Rightarrow> Inl e
      | Inr err \<Rightarrow>
          if truthy err
          then (case get err ''code'' of
                  Inl e \<Rightarrow> Inl e
                | Inr c \<Rightarrow>
                    (case ToString c of
                       Inl e \<Rightarrow> Inl e
                     | Inr code \<Rightarrow>
                         (case get err ''message'' of
                            Inl e \<Rightarrow> Inl e
                          | Inr m \<Rightarrow>
                              (case ToString m of
                                 Inl e \<Rightarrow> Inl e
                               | Inr msg \<Rightarrow> Inl (Error (''RPC error ('' @ code @ ''): '' @ msg))))))
          else get data ''result'')"
  by (simp add: rpcCall_def always_def http_ok_def)

lemma filter_js_returns:
  "(\<exists>ys. filter_js p xs = Inr ys) \<longleftrightarrow> (\<forall>x\<in>set xs. \<exists>b. p x = Inr b)"
  by (induction xs) (auto split: sum.splits)

lemma filter_js_result:
  "filter_js p xs = Inr ys \<Longrightarrow> ys = filter (\<lambda>x. p x = Inr True) xs"
  by (induction xs arbitrary: ys) (auto split: sum.splits)

lemma filter_js_same_failure:
  assumes "\<forall>x\<in>set xs. \<forall>e. p x = Inl e \<longleftrightarrow> q x = Inl e"
  shows "filter_js p xs = Inl e \<longleftrightarrow> filter_js q xs = Inl e"
  using assms
proof (induction xs)
  case Nil
  show ?case by simp
next
  case (Cons x xs)
  then have here: "\<forall>e. p x = Inl e \<longleftrightarrow> q x = Inl e"
    and rest: "filter_js p xs = Inl e \<longleftrightarrow> filter_js q xs = Inl e"
    by simp_all
  show ?case
  proof (cases "p x")
    case (Inl e')
    with here have "q x = Inl e'" by metis
    with Inl show ?thesis by simp
  next
    case (Inr b)
    with here obtain b' where "q x = Inr b'" by (cases "q x") auto
    with Inr rest show ?thesis by (auto split: sum.splits)
  qed
qed

lemma length_filter_mono:
  "\<forall>x\<in>set xs. P x \<longrightarrow> Q x \<Longrightarrow> length (filter P xs) \<le> length (filter Q xs)"
  by (induction xs) auto

lemma ToString_convertible:
  "(\<exists>s. ToString v = Inr s) \<longleftrightarrow> convertible v"
  "(\<exists>s. join vs = Inr s) \<longleftrightarrow> (\<forall>v\<in>set vs. convertible v)"
  by (induction v and vs rule: ToString_join.induct) (auto split: sum.splits)

lemma version_text_returns:
  "(\<exists>t. version_text pod = Inr t) \<longleftrightarrow>
   pod \<noteq> JNull \<and> pod \<noteq> JUndefined \<and> (\<forall>v. get pod ''version'' = Inr v \<longrightarrow> convertible v)"
proof (cases "get pod ''version''")
  case (Inl e)
  then have "pod = JNull \<or> pod = JUndefined" by (cases pod) simp_all
  with Inl show ?thesis by (auto simp: version_text_def)
next
  case (Inr v)
  then have "pod \<noteq> JNull \<and> pod \<noteq> JUndefined" by (cases pod) simp_all
  with Inr show ?thesis by (simp add: version_text_def ToString_convertible(1))
qed

lemma countByFragment_returns:
  assumes "extractPods rpcResult = Inr (pods, log)"
  shows "(\<exists>n. countByFragment rpcResult f = Inr n) \<longleftrightarrow> (\<forall>pod\<in>set pods. \<exists>t. version_text pod = Inr t)"
proof -
  let ?p = "\<lambda>pod. case version_text pod of Inl e \<Rightarrow> Inl e | Inr s \<Rightarrow> Inr (str_includes s f)"
  have "(\<exists>n. countByFragment rpcResult f = Inr n) \<longleftrightarrow> (\<exists>ys. filter_js ?p pods = Inr ys)"
    using assms by (auto simp: countByFragment_def split: sum.splits)
  also have "\<dots> \<longleftrightarrow> (\<forall>pod\<in>set pods. \<exists>b. ?p pod = Inr b)"
    by (rule filter_js_returns)
  also have "\<dots> \<longleftrightarrow> (\<forall>pod\<in>set pods. \<exists>t. version_text pod = Inr t)"
  proof -
    have "(\<exists>b. ?p pod = Inr b) \<longleftrightarrow> (\<exists>t. version_text pod = Inr t)" for pod
      by (cases "version_text pod") simp_all
    then show ?thesis by simp
  qed
  finally show ?thesis .
qed

lemma countByFragment_value:
  assumes "extractPods rpcResult = Inr (pods, log)"
    and "countByFragment rpcResult f = Inr n"
  shows "n = length (filter (\<lambda>pod. \<exists>t. version_text pod = Inr t \<and> str_includes t f) pods)"
proof -
  let ?p = "\<lambda>pod. case version_text pod of Inl e \<Rightarrow> Inl e | Inr s \<Rightarrow> Inr (str_includes s f)"
  from assms obtain ys where ys: "filter_js ?p pods = Inr ys" and n: "n = length ys"
    by (auto simp: countByFragment_def split: sum.splits)
  have same: "(?p pod = Inr True) = (\<exists>t. version_text pod = Inr t \<and> str_includes t f)" for pod
    by (cases "version_text pod") simp_all
  from filter_js_result [OF ys] have "ys = filter (\<lambda>pod. ?p pod = Inr True) pods" .
  then show ?thesis using n by (simp add: same)
qed

lemma countByFragment_failure:
  assumes "extractPods rpcResult = Inr (pods, log)"
  shows "countByFragment rpcResult f = Inl e \<longleftrightarrow> countByFragment rpcResult g = Inl e"
proof -
  let ?p = "\<lambda>h pod. case version_text pod of Inl e \<Rightarrow> Inl e | Inr s \<Rightarrow> Inr (str_includes s h)"
  have "\<forall>pod\<in>set pods. \<forall>e. ?p f pod = Inl e \<longleftrightarrow> ?p g pod = Inl e"
    by (auto split: sum.splits)
  from filter_js_same_failure [OF this]
  have "filter_js (?p f) pods = Inl e \<longleftrightarrow> filter_js (?p g) pods = Inl e" .
  then show ?thesis
    using assms by (auto simp: countByFragment_def split: sum.splits)
qed


lemma version_text_absent:
  "pod \<noteq> JNull \<Longrightarrow> pod \<noteq> JUndefined \<Longrightarrow> get pod ''version'' = Inr JUndefined
     \<Longrightarrow> version_text pod = Inr ''undefined''"
  by (simp add: version_text_def)

lemma countByFragment_single:
  assumes "version_text pod = Inr t"
  shows "countByFragment (JObj [(''pods'', JArr [pod])]) f = Inr (if str_includes t f then 1 else 0)"
  using assms by (simp add: countByFragment_def extractPods_def)

lemma str_includes_trans:
  assumes "\<exists>pre post. g = pre @ f @ post" and "str_includes t g"
  shows "str_includes t f"
proof -
  from assms(1) obtain pre post where g: "g = pre @ f @ post" by blast
  from assms(2) obtain a b where "t = a @ g @ b"
    unfolding str_includes_iff by blast
  with g have "t = (a @ pre) @ f @ (post @ b)" by simp
  then show ?thesis unfolding str_includes_iff by blast
qed

lemma countByFragment_overlap:
  "countByFragment overlap_pods f =
     Inr ((if str_includes ''0.4.10'' f then 1 else 0) + (if str_includes ''0.4.0-0.4.2'' f then 1 else 0))"
  by (simp add: countByFragment_def extractPods_def overlap_pods_def version_text_def)

lemma falsy_values:
  "\<not> truthy v \<longleftrightarrow> v = JUndefined \<or> v = JNull \<or> v = JBool False \<or> v = JNum 0 \<or> v = JStr ''''"
  by (cases v) auto

lemma rpcCall_returns:
  "rpcCall fetch now method params = Inr v \<longleftrightarrow>
     (\<exists>res data err. fetch (rpc_request now method params) = Inr res \<and> ok res \<and> json res = Inr data
        \<and> get data ''error'' = Inr err \<and> \<not> truthy err \<and> get data ''result'' = Inr v)"
  by (auto simp: rpcCall_def split: sum.splits)

lemma rejection_cases:
  "rejection p = (case snd p of Inl e \<Rightarrow> [(fst p, e)] | Inr v \<Rightarrow> [])"
  by (cases p, cases "snd p") auto

lemma earliest_least:
  "\<exists>u. (u, earliest (t, e) rs) \<in> set ((t, e) # rs) \<and> (\<forall>r\<in>set ((t, e) # rs). u \<le> fst r)"
proof (induction rs arbitrary: t e)
  case Nil
  show ?case by simp
next
  case (Cons r rs)
  obtain t' e' where r: "r = (t', e')" by (cases r)
  show ?case
  proof (cases "t' < t")
    case True
    from Cons.IH [of t' e'] obtain u
      where "(u, earliest (t', e') rs) \<in> set ((t', e') # rs)" and "\<forall>r\<in>set ((t', e') # rs). u \<le> fst r"
      by blast
    with True r show ?thesis by (intro exI [of _ u]) auto
  next
    case False
    from Cons.IH [of t e] obtain u
      where "(u, earliest (t, e) rs) \<in> set ((t, e) # rs)" and "\<forall>r\<in>set ((t, e) # rs). u \<le> fst r"
      by blast
    with False r show ?thesis by (intro exI [of _ u]) auto
  qed
qed

lemma Promise_all_fulfilled:
  "Promise_all (t1, Inr a) (t2, Inr b) (t3, Inr c) (t4, Inr d) = Inr (a, b, c, d)"
  by (simp add: Promise_all_def)

lemma Promise_all_rejected:
  assumes "rejection p1 @ rejection p2 @ rejection p3 @ rejection p4 = r # rs"
  shows "Promise_all p1 p2 p3 p4 = Inl (earliest r rs)"
  using assms
  by (auto simp: Promise_all_def rejection_cases split: sum.splits)

lemma show_nat_digits: "set (show_nat n) \<subseteq> set ''0123456789''"
proof (induction n rule: show_nat.induct)
  case (1 n)
  have d: "digit_char k \<in> set ''0123456789''" for k
    by (simp add: digit_char_def)
  show ?case
  proof (cases "n < 10")
    case True
    with d [of n] show ?thesis by (subst show_nat.simps) simp
  next
    case False
    with 1 d [of "n mod 10"] show ?thesis by (subst show_nat.simps) simp
  qed
qed

lemma show_nat_one_line: "CHR ''\<newline>'' \<notin> set (show_nat n)"
  using show_nat_digits [of n] by auto

lemma show_int_one_line: "CHR ''\<newline>'' \<notin> set (show_int i)"
  by (simp add: show_int_def show_nat_one_line)

lemma getPNodesInfo_fulfilled:
  assumes "getPodsByVersion env1 ''0.4.0'' = Inr count040"
    and "getPodsByVersion env2 ''0.4.1'' = Inr count041"
    and "getPodsByVersion env3 ''0.4.2'' = Inr count042"
    and "getTotalPods env4 = Inr total_pods"
  shows "getPNodesInfo env1 env2 env3 env4 =
          ''```ml\<newline>'' @
          ''pNodes Version: Counts\<newline>'' @
          ''       `0.4.0`:      '' @ show_nat count040 @ ''\<newline>'' @
          ''       `0.4.1`:      '' @ show_nat count041 @ ''\<newline>'' @
          ''       `0.4.2`:    '' @ show_nat count042 @ ''\<newline>'' @
          ''         Total:    '' @ show_int total_pods @ ''\<newline>'' @
          ''```''"
  unfolding getPNodesInfo_def assms Promise_all_fulfilled by simp

lemma getPNodesInfo_rejected:
  assumes "rejection (settles_at env1, getPodsByVersion env1 ''0.4.0'')
         @ rejection (settles_at env2, getPodsByVersion env2 ''0.4.1'')
         @ rejection (settles_at env3, getPodsByVersion env3 ''0.4.2'')
         @ rejection (settles_at env4, getTotalPods env4) = r # rs"
  shows "getPNodesInfo env1 env2 env3 env4 = ''Error retrieving data: '' @ message (earliest r rs)"
  unfolding getPNodesInfo_def Promise_all_rejected [OF assms] by simp

lemma example_counts:
  "countByFragment example_pods ''0.4.0'' = Inr 1"
  "countByFragment example_pods ''0.4.1'' = Inr 2"
  "countByFragment example_pods ''0.4.2'' = Inr 1"
  "totalCount example_pods = Inr 4"
  by (simp_all add: countByFragment_def totalCount_def extractPods_def example_pods_def version_text_def)

lemma show_small:
  "show_nat 0 = ''0''" "show_nat 1 = ''1''" "show_nat (Suc 0) = ''1''" "show_nat 2 = ''2''" "show_nat 3 = ''3''" "show_int 2 = ''2''" "show_int 4 = ''4''"
  by (simp_all add: show_int_def show_nat.simps digit_char_def)

lemma rejection_nonempty: "rejection p \<noteq> [] \<longleftrightarrow> isl (snd p)"
  by (cases p, cases "snd p") auto

lemma getPNodesInfo_first_failure:
  assumes "isl (getPodsByVersion env1 ''0.4.0'') \<or> isl (getPodsByVersion env2 ''0.4.1'')
         \<or> isl (getPodsByVersion env3 ''0.4.2'') \<or> isl (getTotalPods env4)"
  shows "\<exists>t e. (t, e) \<in> set (rejection (settles_at env1, getPodsByVersion env1 ''0.4.0'')
                          @ rejection (settles_at env2, getPodsByVersion env2 ''0.4.1'')
                          @ rejection (settles_at env3, getPodsByVersion env3 ''0.4.2'')
                          @ rejection (settles_at env4, getTotalPods env4))
            \<and> (\<forall>r \<in> set (rejection (settles_at env1, getPodsByVersion env1 ''0.4.0'')
                          @ rejection (settles_at env2, getPodsByVersion env2 ''0.4.1'')
                          @ rejection (settles_at env3, getPodsByVersion env3 ''0.4.2'')
                          @ rejection (settles_at env4, getTotalPods env4)). t \<le> fst r)
            \<and> getPNodesInfo env1 env2 env3 env4 = ''Error retrieving data: '' @ message e"
proof -
  let ?rs = "rejection (settles_at env1, getPodsByVersion env1 ''0.4.0'')
           @ rejection (settles_at env2, getPodsByVersion env2 ''0.4.1'')
           @ rejection (settles_at env3, getPodsByVersion env3 ''0.4.2'')
           @ rejection (settles_at env4, getTotalPods env4)"
  from assms have "?rs \<noteq> []"
    using rejection_nonempty [of "(settles_at env1, getPodsByVersion env1 ''0.4.0'')"]
      rejection_nonempty [of "(settles_at env2, getPodsByVersion env2 ''0.4.1'')"]
      rejection_nonempty [of "(settles_at env3, getPodsByVersion env3 ''0.4.2'')"]
      rejection_nonempty [of "(settles_at env4, getTotalPods env4)"]
    by auto
  then obtain r rs where rs: "?rs = r # rs" by (cases ?rs) auto
  obtain t0 e0 where r: "r = (t0, e0)" by (cases r)
  from earliest_least [of t0 e0 rs] obtain u
    where mem: "(u, earliest (t0, e0) rs) \<in> set ((t0, e0) # rs)"
      and least: "\<forall>x\<in>set ((t0, e0) # rs). u \<le> fst x"
    by blast
  have shown: "getPNodesInfo env1 env2 env3 env4 = ''Error retrieving data: '' @ message (earliest (t0, e0) rs)"
    using getPNodesInfo_rejected [OF rs] r by simp
  from mem least shown show ?thesis
    unfolding rs r by blast
qed











subsection \<open>The shape guard\<close>

text \<open>
  C6. \<^verbatim>\<open>extractPods\<close> returns for every input and never throws. It returns the input's
  \<^verbatim>\<open>pods\<close> field, with nothing logged, when the input is neither \<^verbatim>\<open>null\<close> nor
  \<^verbatim>\<open>undefined\<close> and that field is an array; in every other case it returns the empty list and
  logs one warning. The inputs \<^verbatim>\<open>undefined\<close> and \<^verbatim>\<open>{}\<close> are of the second kind.
\<close>

theorem extractPods_total:
  "(\<forall>pods. rpcResult \<noteq> JNull \<and> rpcResult \<noteq> JUndefined \<and> get rpcResult ''pods'' = Inr (JArr pods)
      \<longrightarrow> extractPods rpcResult = Inr (pods, []))
   \<and> (rpcResult = JNull \<or> rpcResult = JUndefined \<or> \<not> (\<exists>pods. get rpcResult ''pods'' = Inr (JArr pods))
      \<longrightarrow> extractPods rpcResult = Inr ([], [Warn ''extractPods: unexpected RPC shape'' rpcResult]))
   \<and> extractPods JUndefined = Inr ([], [Warn ''extractPods: unexpected RPC shape'' JUndefined])
   \<and> extractPods (JObj []) = Inr ([], [Warn ''extractPods: unexpected RPC shape'' (JObj [])])"
proof -
  have null: "\<not> (\<exists>pods. get JNull ''pods'' = Inr (JArr pods))" by simp
  have undef: "\<not> (\<exists>pods. get JUndefined ''pods'' = Inr (JArr pods))" by simp
  have empty: "\<not> (\<exists>pods. get (JObj []) ''pods'' = Inr (JArr pods))" by simp
  show ?thesis
    using extractPods_array [of rpcResult] extractPods_other [of rpcResult]
      extractPods_other [OF null] extractPods_other [OF undef] extractPods_other [OF empty]
    by blast
qed

theorem extractPods_total_witness:
  "JObj [(''pods'', JArr [JNull])] \<noteq> JNull \<and> JObj [(''pods'', JArr [JNull])] \<noteq> JUndefined
   \<and> get (JObj [(''pods'', JArr [JNull])]) ''pods'' = Inr (JArr [JNull])
   \<and> extractPods (JObj [(''pods'', JArr [JNull])]) = Inr ([JNull], [])
   \<and> extractPods JNull = Inr ([], [Warn ''extractPods: unexpected RPC shape'' JNull])"
  using extractPods_total [of "JObj [(''pods'', JArr [JNull])]"] extractPods_total [of JNull]
  by simp

subsection \<open>The total\<close>

text \<open>
  C2. Once the RPC call has returned \<open>rpcResult\<close>, \<^verbatim>\<open>getTotalPods\<close> returns its
  \<^verbatim>\<open>total_count\<close> field whenever that field is a number, whatever the length of the pods
  list. When the field is absent or not a number it returns the length of the list that
  \<^verbatim>\<open>extractPods\<close> yields: the length of \<^verbatim>\<open>pods\<close> when that is an array, 0 otherwise.
\<close>

theorem getTotalPods_prefers_total_count:
  assumes "rpcCall (network env) (clock env) ''get-pods'' [] = Inr rpcResult"
  shows "(\<forall>n. get rpcResult ''total_count'' = Inr (JNum n) \<longrightarrow> getTotalPods env = Inr n)
       \<and> (\<not> (\<exists>n. get rpcResult ''total_count'' = Inr (JNum n)) \<longrightarrow>
            (\<exists>pods log. extractPods rpcResult = Inr (pods, log)
                \<and> getTotalPods env = Inr (int (length pods)))
          \<and> (\<forall>pods. get rpcResult ''pods'' = Inr (JArr pods)
                \<longrightarrow> getTotalPods env = Inr (int (length pods)))
          \<and> (\<not> (\<exists>pods. get rpcResult ''pods'' = Inr (JArr pods))
                \<longrightarrow> getTotalPods env = Inr 0))"
proof -
  have step: "getTotalPods env = totalCount rpcResult"
    using assms by (simp add: getTotalPods_def)
  have number: "\<forall>n. get rpcResult ''total_count'' = Inr (JNum n) \<longrightarrow> getTotalPods env = Inr n"
    by (simp add: step totalCount_number)
  have fallback: "\<exists>pods log. extractPods rpcResult = Inr (pods, log)
                \<and> getTotalPods env = Inr (int (length pods))"
    if "\<not> (\<exists>n. get rpcResult ''total_count'' = Inr (JNum n))"
    using that extractPods_returns [of rpcResult] totalCount_fallback [of rpcResult] step by metis
  have listed: "\<forall>pods. get rpcResult ''pods'' = Inr (JArr pods)
                \<longrightarrow> getTotalPods env = Inr (int (length pods))"
    if "\<not> (\<exists>n. get rpcResult ''total_count'' = Inr (JNum n))"
    using that totalCount_fallback [of rpcResult] extractPods_array [of rpcResult] step by metis
  have unlisted: "getTotalPods env = Inr 0"
    if "\<not> (\<exists>n. get rpcResult ''total_count'' = Inr (JNum n))"
      and "\<not> (\<exists>pods. get rpcResult ''pods'' = Inr (JArr pods))"
    using that totalCount_fallback [of rpcResult "[]"] extractPods_other [of rpcResult] step by simp
  show ?thesis using number fallback listed unlisted by blast
qed

theorem getTotalPods_prefers_total_count_witness:
  "rpcCall (network \<lparr>clock = 5, network = always (http_ok (JObj [(''result'',
        JObj [(''pods'', JArr [JObj []]), (''total_count'', JNum 7)])])), settles_at = 0\<rparr>)
      (clock \<lparr>clock = 5, network = always (http_ok (JObj [(''result'',
        JObj [(''pods'', JArr [JObj []]), (''total_count'', JNum 7)])])), settles_at = 0\<rparr>)
      ''get-pods'' []
     = Inr (JObj [(''pods'', JArr [JObj []]), (''total_count'', JNum 7)])
   \<and> get (JObj [(''pods'', JArr [JObj []]), (''total_count'', JNum 7)]) ''total_count'' = Inr (JNum 7)
   \<and> getTotalPods \<lparr>clock = 5, network = always (http_ok (JObj [(''result'',
        JObj [(''pods'', JArr [JObj []]), (''total_count'', JNum 7)])])), settles_at = 0\<rparr> = Inr 7
   \<and> rpcCall (always (http_ok (JObj [(''result'',
        JObj [(''pods'', JArr [JObj [], JNull]), (''total_count'', JStr ''7'')])]))) 5 ''get-pods'' []
     = Inr (JObj [(''pods'', JArr [JObj [], JNull]), (''total_count'', JStr ''7'')])
   \<and> get (JObj [(''pods'', JArr [JObj [], JNull]), (''total_count'', JStr ''7'')]) ''total_count'' = Inr (JStr ''7'')
   \<and> getTotalPods \<lparr>clock = 5, network = always (http_ok (JObj [(''result'',
        JObj [(''pods'', JArr [JObj [], JNull]), (''total_count'', JStr ''7'')])])), settles_at = 0\<rparr> = Inr 2"
proof -
  let ?r1 = "JObj [(''pods'', JArr [JObj []]), (''total_count'', JNum 7)]"
  let ?r2 = "JObj [(''pods'', JArr [JObj [], JNull]), (''total_count'', JStr ''7'')]"
  let ?e1 = "\<lparr>clock = 5, network = always (http_ok (JObj [(''result'', ?r1)])), settles_at = 0\<rparr>"
  let ?e2 = "\<lparr>clock = 5, network = always (http_ok (JObj [(''result'', ?r2)])), settles_at = 0\<rparr>"
  have c1: "rpcCall (network ?e1) (clock ?e1) ''get-pods'' [] = Inr ?r1"
    by (simp add: rpcCall_http_ok)
  have c2: "rpcCall (network ?e2) (clock ?e2) ''get-pods'' [] = Inr ?r2"
    by (simp add: rpcCall_http_ok)
  show ?thesis
    using getTotalPods_prefers_total_count [OF c1] getTotalPods_prefers_total_count [OF c2] c1 c2
    by simp
qed

subsection \<open>Counting by version fragment\<close>



text \<open>
  C9, as stated, fails: the predicate of the filter reads \<^verbatim>\<open>pod.version\<close> with no guard on
  \<open>pod\<close>, so a \<^verbatim>\<open>null\<close> entry in the pods list makes the count throw a \<^verbatim>\<open>TypeError\<close>.
\<close>

theorem countByFragment_null_entry_counterexample:
  "isl (countByFragment (JObj [(''pods'', JArr [JNull])]) ''0.4.0'')"
  by (simp add: countByFragment_def extractPods_def version_text_def)

text \<open>
  C9, amended. The count returns, for any fragment, exactly when every entry of the pods list
  is neither \<^verbatim>\<open>null\<close> nor \<^verbatim>\<open>undefined\<close> and has a version that \<^verbatim>\<open>String\<close> converts (any
  primitive, an absent version included; an object without an own \<^verbatim>\<open>toString\<close> key; an array
  of such values). An entry without a version has the version text \<^verbatim>\<open>undefined\<close>: a list
  holding just that entry counts 1 for the empty fragment and 0 for each of \<^verbatim>\<open>0.4.0\<close>,
  \<^verbatim>\<open>0.4.1\<close> and \<^verbatim>\<open>0.4.2\<close>.
\<close>

theorem countByFragment_total_on_convertible:
  assumes "extractPods rpcResult = Inr (pods, log)"
  shows "((\<exists>n. countByFragment rpcResult f = Inr n) \<longleftrightarrow>
            (\<forall>pod\<in>set pods. pod \<noteq> JNull \<and> pod \<noteq> JUndefined
                \<and> (\<forall>v. get pod ''version'' = Inr v \<longrightarrow> convertible v)))
       \<and> (\<forall>pod. pod \<noteq> JNull \<and> pod \<noteq> JUndefined \<and> get pod ''version'' = Inr JUndefined \<longrightarrow>
            version_text pod = Inr ''undefined''
            \<and> countByFragment (JObj [(''pods'', JArr [pod])]) '''' = Inr 1
            \<and> countByFragment (JObj [(''pods'', JArr [pod])]) ''0.4.0'' = Inr 0
            \<and> countByFragment (JObj [(''pods'', JArr [pod])]) ''0.4.1'' = Inr 0
            \<and> countByFragment (JObj [(''pods'', JArr [pod])]) ''0.4.2'' = Inr 0)"
proof -
  have returns: "(\<exists>n. countByFragment rpcResult f = Inr n) \<longleftrightarrow>
      (\<forall>pod\<in>set pods. pod \<noteq> JNull \<and> pod \<noteq> JUndefined
          \<and> (\<forall>v. get pod ''version'' = Inr v \<longrightarrow> convertible v))"
    unfolding countByFragment_returns [OF assms] version_text_returns ..
  have absent: "version_text pod = Inr ''undefined''
      \<and> countByFragment (JObj [(''pods'', JArr [pod])]) '''' = Inr 1
      \<and> countByFragment (JObj [(''pods'', JArr [pod])]) ''0.4.0'' = Inr 0
      \<and> countByFragment (JObj [(''pods'', JArr [pod])]) ''0.4.1'' = Inr 0
      \<and> countByFragment (JObj [(''pods'', JArr [pod])]) ''0.4.2'' = Inr 0"
    if "pod \<noteq> JNull \<and> pod \<noteq> JUndefined \<and> get pod ''version'' = Inr JUndefined" for pod
  proof -
    from that have t: "version_text pod = Inr ''undefined''"
      by (simp add: version_text_absent)
    show ?thesis
      by (simp add: t countByFragment_single [OF t])
  qed
  show ?thesis using returns absent by blast
qed

theorem countByFragment_total_on_convertible_witness:
  "extractPods (JObj [(''pods'', JArr [JObj [(''version'', JBool True)], JObj [(''name'', JStr ''a'')], JNum 3])])
     = Inr ([JObj [(''version'', JBool True)], JObj [(''name'', JStr ''a'')], JNum 3], [])
   \<and> get (JObj [(''version'', JBool True)]) ''version'' = Inr (JBool True)
   \<and> convertible (JBool True)
   \<and> get (JObj [(''name'', JStr ''a'')]) ''version'' = Inr JUndefined
   \<and> get (JNum 3) ''version'' = Inr JUndefined
   \<and> convertible JUndefined
   \<and> (\<exists>n. countByFragment (JObj [(''pods'', JArr [JObj [(''version'', JBool True)], JObj [(''name'', JStr ''a'')], JNum 3])]) ''0.4.1'' = Inr n)
   \<and> version_text (JObj [(''name'', JStr ''a'')]) = Inr ''undefined''
   \<and> countByFragment (JObj [(''pods'', JArr [JObj [(''name'', JStr ''a'')]])]) '''' = Inr 1
   \<and> countByFragment (JObj [(''pods'', JArr [JObj [(''name'', JStr ''a'')]])]) ''0.4.1'' = Inr 0"
proof -
  let ?pods = "[JObj [(''version'', JBool True)], JObj [(''name'', JStr ''a'')], JNum 3]"
  let ?r = "JObj [(''pods'', JArr ?pods)]"
  have ex: "extractPods ?r = Inr (?pods, [])"
    by (simp add: extractPods_def)
  have good: "\<forall>pod\<in>set ?pods. pod \<noteq> JNull \<and> pod \<noteq> JUndefined
                \<and> (\<forall>v. get pod ''version'' = Inr v \<longrightarrow> convertible v)"
    by simp
  have returns: "\<exists>n. countByFragment ?r ''0.4.1'' = Inr n"
    using countByFragment_total_on_convertible [OF ex, of "''0.4.1''", THEN conjunct1] good
    by blast
  have absent: "JObj [(''name'', JStr ''a'')] \<noteq> JNull \<and> JObj [(''name'', JStr ''a'')] \<noteq> JUndefined
      \<and> get (JObj [(''name'', JStr ''a'')]) ''version'' = Inr JUndefined"
    by simp
  show ?thesis
    using ex returns absent
      countByFragment_total_on_convertible [OF ex, of "''0.4.1''", THEN conjunct2, rule_format, OF absent]
    by simp
qed

text \<open>
  C8. Counting is antitone in the fragment: when \<open>f\<close> occurs in \<open>g\<close>, every count for \<open>g\<close> is
  at most the count for \<open>f\<close> on the same RPC result (and the count throws for one fragment
  exactly when it throws, the same failure, for the other). The buckets may therefore overlap:
  a pod of version \<^verbatim>\<open>0.4.10\<close> is counted under \<^verbatim>\<open>0.4.1\<close>, and on a list of two pods the
  three reported counts can add up to 3 while the total is 2.
\<close>

theorem countByFragment_antitone:
  assumes "\<exists>pre post. g = pre @ f @ post"
  shows "(\<forall>m n. countByFragment rpcResult f = Inr m \<and> countByFragment rpcResult g = Inr n \<longrightarrow> n \<le> m)
       \<and> (\<forall>e. countByFragment rpcResult f = Inl e \<longleftrightarrow> countByFragment rpcResult g = Inl e)
       \<and> countByFragment (JObj [(''pods'', JArr [JObj [(''version'', JStr ''0.4.10'')]])]) ''0.4.1'' = Inr 1
       \<and> countByFragment overlap_pods ''0.4.0'' = Inr 1
       \<and> countByFragment overlap_pods ''0.4.1'' = Inr 1
       \<and> countByFragment overlap_pods ''0.4.2'' = Inr 1
       \<and> totalCount overlap_pods = Inr 2"
proof -
  obtain pods log where ex: "extractPods rpcResult = Inr (pods, log)"
    using extractPods_returns by blast
  have mono: "n \<le> m"
    if "countByFragment rpcResult f = Inr m" and "countByFragment rpcResult g = Inr n" for m n
  proof -
    have "\<forall>pod\<in>set pods. (\<exists>t. version_text pod = Inr t \<and> str_includes t g)
            \<longrightarrow> (\<exists>t. version_text pod = Inr t \<and> str_includes t f)"
      using str_includes_trans [OF assms] by blast
    from length_filter_mono [OF this]
    show ?thesis
      unfolding countByFragment_value [OF ex that(1)] countByFragment_value [OF ex that(2)] .
  qed
  have fail: "\<forall>e. countByFragment rpcResult f = Inl e \<longleftrightarrow> countByFragment rpcResult g = Inl e"
    using countByFragment_failure [OF ex] by blast
  have one: "countByFragment (JObj [(''pods'', JArr [JObj [(''version'', JStr ''0.4.10'')]])]) ''0.4.1'' = Inr 1"
    by (simp add: countByFragment_single [of _ "''0.4.10''"] version_text_def)
  have total: "totalCount overlap_pods = Inr 2"
    by (simp add: totalCount_def extractPods_def overlap_pods_def)
  show ?thesis
    using mono fail one total by (simp add: countByFragment_overlap)
qed

theorem countByFragment_antitone_witness:
  "''0.4.1'' = '''' @ ''0.4'' @ ''.1''
   \<and> countByFragment overlap_pods ''0.4'' = Inr 2
   \<and> countByFragment overlap_pods ''0.4.1'' = Inr 1
   \<and> (1::nat) \<le> 2"
proof -
  have sub: "\<exists>pre post. ''0.4.1'' = pre @ ''0.4'' @ post"
    by (rule exI [of _ "''''"], rule exI [of _ "''.1''"]) simp
  have f: "countByFragment overlap_pods ''0.4'' = Inr 2"
    by (simp add: countByFragment_overlap)
  have g: "countByFragment overlap_pods ''0.4.1'' = Inr 1"
    by (simp add: countByFragment_overlap)
  from countByFragment_antitone [OF sub, of overlap_pods, THEN conjunct1, rule_format, of 2 1] f g
  have "(1::nat) \<le> 2" by blast
  with f g show ?thesis by simp
qed

subsection \<open>The RPC client\<close>

text \<open>
  C4, as stated, fails. A body that contains an \<^verbatim>\<open>error\<close> field does not make the call throw
  when that field is falsy: with \<^verbatim>\<open>{"error": null, "result": 7}\<close> the call returns 7. And the
  call throws in cases other than the two listed: when \<^verbatim>\<open>fetch\<close> itself rejects, and when the
  body is the JSON value \<^verbatim>\<open>null\<close>.
\<close>

theorem rpcCall_falsy_error_counterexample:
  "rpcCall (always (http_ok (JObj [(''error'', JNull), (''result'', JNum 7)]))) 0 ''get-pods'' [] = Inr (JNum 7)
   \<and> rpcCall (always (Inl (FetchError ''connect ECONNREFUSED 127.0.0.1:6000''))) 0 ''get-pods'' []
       = Inl (FetchError ''connect ECONNREFUSED 127.0.0.1:6000'')
   \<and> isl (rpcCall (always (http_ok JNull)) 0 ''get-pods'' [])"
  by (simp add: rpcCall_http_ok) (simp add: rpcCall_def always_def)

text \<open>
  C4, amended. The call has exactly these outcomes. A rejection of \<^verbatim>\<open>fetch\<close> and a rejection
  of \<^verbatim>\<open>res.json()\<close> pass through unchanged. A response that is not \<^verbatim>\<open>ok\<close> gives an error
  whose message carries the status code and the status text. A body that is \<^verbatim>\<open>null\<close> gives
  the failure of reading its \<^verbatim>\<open>error\<close> property. A truthy \<^verbatim>\<open>error\<close> field always makes the
  call throw, with a message that carries the texts of its \<^verbatim>\<open>code\<close> and \<^verbatim>\<open>message\<close> when
  both convert. In the remaining case, a falsy \<^verbatim>\<open>error\<close> field (absent, \<^verbatim>\<open>null\<close>,
  \<^verbatim>\<open>false\<close>, 0 or the empty string), the call returns exactly the \<^verbatim>\<open>result\<close> field, whatever
  its shape; and it returns in no other case.
\<close>

theorem rpcCall_outcomes:
  "(\<forall>e. fetch (rpc_request now method params) = Inl e \<longrightarrow> rpcCall fetch now method params = Inl e)
   \<and> (\<forall>res. fetch (rpc_request now method params) = Inr res \<and> \<not> ok res \<longrightarrow>
         rpcCall fetch now method params =
           Inl (Error (''RPC request failed: '' @ show_nat (status res) @ '' '' @ statusText res)))
   \<and> (\<forall>res e. fetch (rpc_request now method params) = Inr res \<and> ok res \<and> json res = Inl e \<longrightarrow>
         rpcCall fetch now method params = Inl e)
   \<and> (\<forall>res data e. fetch (rpc_request now method params) = Inr res \<and> ok res \<and> json res = Inr data
           \<and> get data ''error'' = Inl e \<longrightarrow>
         (data = JNull \<or> data = JUndefined) \<and> rpcCall fetch now method params = Inl e)
   \<and> (\<forall>res data err. fetch (rpc_request now method params) = Inr res \<and> ok res \<and> json res = Inr data
           \<and> get data ''error'' = Inr err \<and> truthy err \<longrightarrow>
         isl (rpcCall fetch now method params)
         \<and> (\<forall>c m code msg. get err ''code'' = Inr c \<and> ToString c = Inr code
               \<and> get err ''message'' = Inr m \<and> ToString m = Inr msg \<longrightarrow>
             rpcCall fetch now method params = Inl (Error (''RPC error ('' @ code @ ''): '' @ msg))))
   \<and> (\<forall>res data err. fetch (rpc_request now method params) = Inr res \<and> ok res \<and> json res = Inr data
           \<and> get data ''error'' = Inr err \<and> \<not> truthy err \<longrightarrow>
         (err = JUndefined \<or> err = JNull \<or> err = JBool False \<or> err = JNum 0 \<or> err = JStr '''')
         \<and> rpcCall fetch now method params = get data ''result''
         \<and> (\<exists>v. get data ''result'' = Inr v))
   \<and> (\<forall>v. rpcCall fetch now method params = Inr v \<longleftrightarrow>
         (\<exists>res data err. fetch (rpc_request now method params) = Inr res \<and> ok res \<and> json res = Inr data
            \<and> get data ''error'' = Inr err \<and> \<not> truthy err \<and> get data ''result'' = Inr v))"
proof -
  have a: "\<forall>e. fetch (rpc_request now method params) = Inl e \<longrightarrow> rpcCall fetch now method params = Inl e"
    by (simp add: rpcCall_def)
  have b: "\<forall>res. fetch (rpc_request now method params) = Inr res \<and> \<not> ok res \<longrightarrow>
         rpcCall fetch now method params =
           Inl (Error (''RPC request failed: '' @ show_nat (status res) @ '' '' @ statusText res))"
    by (simp add: rpcCall_def)
  have c: "\<forall>res e. fetch (rpc_request now method params) = Inr res \<and> ok res \<and> json res = Inl e \<longrightarrow>
         rpcCall fetch now method params = Inl e"
    by (simp add: rpcCall_def)
  have d: "(data = JNull \<or> data = JUndefined) \<and> rpcCall fetch now method params = Inl e"
    if "fetch (rpc_request now method params) = Inr res \<and> ok res \<and> json res = Inr data
           \<and> get data ''error'' = Inl e" for res data e
  proof -
    from that have "data = JNull \<or> data = JUndefined" by (cases data) simp_all
    with that show ?thesis by (simp add: rpcCall_def)
  qed
  have e: "isl (rpcCall fetch now method params)
         \<and> (\<forall>c m code msg. get err ''code'' = Inr c \<and> ToString c = Inr code
               \<and> get err ''message'' = Inr m \<and> ToString m = Inr msg \<longrightarrow>
             rpcCall fetch now method params = Inl (Error (''RPC error ('' @ code @ ''): '' @ msg)))"
    if "fetch (rpc_request now method params) = Inr res \<and> ok res \<and> json res = Inr data
           \<and> get data ''error'' = Inr err \<and> truthy err" for res data err
    using that by (simp add: rpcCall_def split: sum.splits)
  have f: "(err = JUndefined \<or> err = JNull \<or> err = JBool False \<or> err = JNum 0 \<or> err = JStr '''')
         \<and> rpcCall fetch now method params = get data ''result''
         \<and> (\<exists>v. get data ''result'' = Inr v)"
    if "fetch (rpc_request now method params) = Inr res \<and> ok res \<and> json res = Inr data
           \<and> get data ''error'' = Inr err \<and> \<not> truthy err" for res data err
  proof -
    from that have "data \<noteq> JNull" "data \<noteq> JUndefined" by auto
    then have "\<exists>v. get data ''result'' = Inr v" by (rule get_defined)
    moreover from that have "err = JUndefined \<or> err = JNull \<or> err = JBool False \<or> err = JNum 0 \<or> err = JStr []"
      by (simp add: falsy_values)
    moreover from that have "rpcCall fetch now method params = get data ''result''"
      by (simp add: rpcCall_def)
    ultimately show ?thesis by simp
  qed
  have g: "\<forall>v. rpcCall fetch now method params = Inr v \<longleftrightarrow>
     (\<exists>res data err. fetch (rpc_request now method params) = Inr res \<and> ok res \<and> json res = Inr data
        \<and> get data ''error'' = Inr err \<and> \<not> truthy err \<and> get data ''result'' = Inr v)"
    by (simp add: rpcCall_returns)
  show ?thesis using a b c d e f g by blast
qed

theorem rpcCall_outcomes_witness:
  "always (Inr \<lparr>ok = False, status = 503, statusText = ''Service Unavailable'', json = Inr JNull\<rparr>)
       (rpc_request 1 ''get-pods'' [])
     = Inr \<lparr>ok = False, status = 503, statusText = ''Service Unavailable'', json = Inr JNull\<rparr>
   \<and> rpcCall (always (Inr \<lparr>ok = False, status = 503, statusText = ''Service Unavailable'', json = Inr JNull\<rparr>))
       1 ''get-pods'' []
     = Inl (Error ''RPC request failed: 503 Service Unavailable'')"
proof -
  let ?res = "\<lparr>ok = False, status = 503, statusText = ''Service Unavailable'', json = Inr JNull\<rparr>"
  have sent: "always (Inr ?res) (rpc_request 1 ''get-pods'' []) = Inr ?res"
    by (simp add: always_def)
  have digits: "show_nat 503 = ''503''"
    by (simp add: show_nat.simps digit_char_def)
  from rpcCall_outcomes [of "always (Inr ?res)" 1 "''get-pods''" "[]", THEN conjunct2, THEN conjunct1,
      rule_format, of ?res] sent
  have "rpcCall (always (Inr ?res)) 1 ''get-pods'' []
          = Inl (Error (''RPC request failed: '' @ show_nat (status ?res) @ '' '' @ statusText ?res))"
    by simp
  with sent digits show ?thesis by simp
qed

subsection \<open>The report\<close>

text \<open>
  C7. When the four queries return, the string \<^verbatim>\<open>getPNodesInfo\<close> returns is a block of fixed
  layout: the opening fence \<^verbatim>\<open>```ml\<close>, a heading, the counts for \<^verbatim>\<open>0.4.0\<close>, \<^verbatim>\<open>0.4.1\<close>
  and \<^verbatim>\<open>0.4.2\<close> in that order, the total, each on a line of its own, and the closing fence.
  No figure's rendering holds a line break, so the block has exactly these seven lines.
\<close>

theorem getPNodesInfo_report_layout:
  assumes "getPodsByVersion env1 ''0.4.0'' = Inr count040"
    and "getPodsByVersion env2 ''0.4.1'' = Inr count041"
    and "getPodsByVersion env3 ''0.4.2'' = Inr count042"
    and "getTotalPods env4 = Inr total_pods"
  shows "getPNodesInfo env1 env2 env3 env4 =
           concat (map (\<lambda>line. line @ ''\<newline>'')
             [''```ml'',
              ''pNodes Version: Counts'',
              ''       `0.4.0`:      '' @ show_nat count040,
              ''       `0.4.1`:      '' @ show_nat count041,
              ''       `0.4.2`:    '' @ show_nat count042,
              ''         Total:    '' @ show_int total_pods])
           @ ''```''
       \<and> CHR ''\<newline>'' \<notin> set (show_nat count040)
       \<and> CHR ''\<newline>'' \<notin> set (show_nat count041)
       \<and> CHR ''\<newline>'' \<notin> set (show_nat count042)
       \<and> CHR ''\<newline>'' \<notin> set (show_int total_pods)"
  using getPNodesInfo_fulfilled [OF assms]
  by (simp add: show_nat_one_line show_int_one_line)

theorem getPNodesInfo_report_layout_witness:
  "getPodsByVersion \<lparr>clock = 1, network = always (http_ok (JObj [(''result'', overlap_pods)])), settles_at = 1\<rparr> ''0.4.0'' = Inr 1
   \<and> getPodsByVersion \<lparr>clock = 1, network = always (http_ok (JObj [(''result'', overlap_pods)])), settles_at = 1\<rparr> ''0.4.1'' = Inr 1
   \<and> getPodsByVersion \<lparr>clock = 1, network = always (http_ok (JObj [(''result'', overlap_pods)])), settles_at = 1\<rparr> ''0.4.2'' = Inr 1
   \<and> getTotalPods \<lparr>clock = 1, network = always (http_ok (JObj [(''result'', overlap_pods)])), settles_at = 1\<rparr> = Inr 2
   \<and> getPNodesInfo
       \<lparr>clock = 1, network = always (http_ok (JObj [(''result'', overlap_pods)])), settles_at = 1\<rparr>
       \<lparr>clock = 1, network = always (http_ok (JObj [(''result'', overlap_pods)])), settles_at = 1\<rparr>
       \<lparr>clock = 1, network = always (http_ok (JObj [(''result'', overlap_pods)])), settles_at = 1\<rparr>
       \<lparr>clock = 1, network = always (http_ok (JObj [(''result'', overlap_pods)])), settles_at = 1\<rparr>
     = ''```ml\<newline>pNodes Version: Counts\<newline>       `0.4.0`:      1\<newline>       `0.4.1`:      1\<newline>       `0.4.2`:    1\<newline>         Total:    2\<newline>```''"
proof -
  let ?env = "\<lparr>clock = 1, network = always (http_ok (JObj [(''result'', overlap_pods)])), settles_at = 1\<rparr>"
  have call: "rpcCall (network ?env) (clock ?env) ''get-pods'' [] = Inr overlap_pods"
    by (simp add: rpcCall_http_ok)
  have c0: "getPodsByVersion ?env ''0.4.0'' = Inr 1"
    using call by (simp add: getPodsByVersion_def countByFragment_overlap)
  have c1: "getPodsByVersion ?env ''0.4.1'' = Inr 1"
    using call by (simp add: getPodsByVersion_def countByFragment_overlap)
  have c2: "getPodsByVersion ?env ''0.4.2'' = Inr 1"
    using call by (simp add: getPodsByVersion_def countByFragment_overlap)
  have t: "getTotalPods ?env = Inr 2"
    using call by (simp add: getTotalPods_def totalCount_def extractPods_def overlap_pods_def)
  from getPNodesInfo_report_layout [OF c0 c1 c2 t, THEN conjunct1] c0 c1 c2 t
  show ?thesis by (simp add: show_small)
qed

text \<open>
  C5. When every RPC call returns the four pods of versions \<^verbatim>\<open>0.4.0\<close>, \<^verbatim>\<open>0.4.1\<close>,
  \<^verbatim>\<open>0.4.1\<close>, \<^verbatim>\<open>0.4.2\<close> with \<^verbatim>\<open>total_count\<close> 4, the report shows 1, 2, 1 and Total 4.
\<close>

theorem getPNodesInfo_worked_example:
  assumes "rpcCall (network env1) (clock env1) ''get-pods'' [] = Inr example_pods"
    and "rpcCall (network env2) (clock env2) ''get-pods'' [] = Inr example_pods"
    and "rpcCall (network env3) (clock env3) ''get-pods'' [] = Inr example_pods"
    and "rpcCall (network env4) (clock env4) ''get-pods'' [] = Inr example_pods"
  shows "getPNodesInfo env1 env2 env3 env4 =
          ''```ml\<newline>pNodes Version: Counts\<newline>       `0.4.0`:      1\<newline>       `0.4.1`:      2\<newline>       `0.4.2`:    1\<newline>         Total:    4\<newline>```''"
proof -
  have "getPodsByVersion env1 ''0.4.0'' = Inr 1"
    by (simp add: getPodsByVersion_def assms(1) example_counts)
  moreover have "getPodsByVersion env2 ''0.4.1'' = Inr 2"
    by (simp add: getPodsByVersion_def assms(2) example_counts)
  moreover have "getPodsByVersion env3 ''0.4.2'' = Inr 1"
    by (simp add: getPodsByVersion_def assms(3) example_counts)
  moreover have "getTotalPods env4 = Inr 4"
    by (simp add: getTotalPods_def assms(4) example_counts)
  ultimately show ?thesis
    by (simp add: getPNodesInfo_fulfilled show_small)
qed

theorem getPNodesInfo_worked_example_witness:
  "rpcCall (network \<lparr>clock = 1700000000000, network = always (http_ok (JObj [(''result'', example_pods)])), settles_at = 3\<rparr>)
           (clock \<lparr>clock = 1700000000000, network = always (http_ok (JObj [(''result'', example_pods)])), settles_at = 3\<rparr>)
           ''get-pods'' [] = Inr example_pods
   \<and> getPNodesInfo
       \<lparr>clock = 1700000000000, network = always (http_ok (JObj [(''result'', example_pods)])), settles_at = 3\<rparr>
       \<lparr>clock = 1700000000000, network = always (http_ok (JObj [(''result'', example_pods)])), settles_at = 3\<rparr>
       \<lparr>clock = 1700000000000, network = always (http_ok (JObj [(''result'', example_pods)])), settles_at = 3\<rparr>
       \<lparr>clock = 1700000000000, network = always (http_ok (JObj [(''result'', example_pods)])), settles_at = 3\<rparr>
     = ''```ml\<newline>pNodes Version: Counts\<newline>       `0.4.0`:      1\<newline>       `0.4.1`:      2\<newline>       `0.4.2`:    1\<newline>         Total:    4\<newline>```''"
proof -
  let ?env = "\<lparr>clock = 1700000000000, network = always (http_ok (JObj [(''result'', example_pods)])), settles_at = 3\<rparr>"
  have call: "rpcCall (network ?env) (clock ?env) ''get-pods'' [] = Inr example_pods"
    by (simp add: rpcCall_http_ok)
  from getPNodesInfo_worked_example [OF call call call call] call
  show ?thesis by simp
qed

subsection \<open>Failures\<close>

text \<open>
  C3, as stated, fails in one point: the error string is not always a single line. The
  message of the failure is appended as it is, and a remote error message may hold a line
  break.
\<close>

theorem getPNodesInfo_multiline_error_counterexample:
  "getPNodesInfo
     \<lparr>clock = 0, network = always (http_ok (rpc_error 1 ''bad\<newline>request'')), settles_at = 0\<rparr>
     \<lparr>clock = 0, network = always (http_ok (rpc_error 1 ''bad\<newline>request'')), settles_at = 0\<rparr>
     \<lparr>clock = 0, network = always (http_ok (rpc_error 1 ''bad\<newline>request'')), settles_at = 0\<rparr>
     \<lparr>clock = 0, network = always (http_ok (rpc_error 1 ''bad\<newline>request'')), settles_at = 0\<rparr>
   = ''Error retrieving data: RPC error (1): bad\<newline>request''"
  by (simp add: getPNodesInfo_def Promise_all_def getPodsByVersion_def getTotalPods_def rpcCall_http_ok
      rpc_error_def show_int_def show_nat.simps digit_char_def)

text \<open>
  C3, amended. \<^verbatim>\<open>getPNodesInfo\<close> never throws (it is a total function into strings). If any
  of its four queries throws, it returns exactly \<^verbatim>\<open>Error retrieving data: \<close> followed by the
  message of one of the failures, the one that settles first; the string holds nothing else,
  so no count of a query that returned. It adds no line break: the string has one exactly when
  that message has one.
\<close>

theorem getPNodesInfo_failure:
  assumes "isl (getPodsByVersion env1 ''0.4.0'') \<or> isl (getPodsByVersion env2 ''0.4.1'')
         \<or> isl (getPodsByVersion env3 ''0.4.2'') \<or> isl (getTotalPods env4)"
  shows "\<exists>t e. (t, e) \<in> set (rejection (settles_at env1, getPodsByVersion env1 ''0.4.0'')
                          @ rejection (settles_at env2, getPodsByVersion env2 ''0.4.1'')
                          @ rejection (settles_at env3, getPodsByVersion env3 ''0.4.2'')
                          @ rejection (settles_at env4, getTotalPods env4))
            \<and> (\<forall>r \<in> set (rejection (settles_at env1, getPodsByVersion env1 ''0.4.0'')
                          @ rejection (settles_at env2, getPodsByVersion env2 ''0.4.1'')
                          @ rejection (settles_at env3, getPodsByVersion env3 ''0.4.2'')
                          @ rejection (settles_at env4, getTotalPods env4)). t \<le> fst r)
            \<and> getPNodesInfo env1 env2 env3 env4 = ''Error retrieving data: '' @ message e
            \<and> (CHR ''\<newline>'' \<in> set (getPNodesInfo env1 env2 env3 env4)
                 \<longleftrightarrow> CHR ''\<newline>'' \<in> set (message e))"
proof -
  from getPNodesInfo_first_failure [OF assms] obtain t e
    where first: "(t, e) \<in> set (rejection (settles_at env1, getPodsByVersion env1 ''0.4.0'')
                          @ rejection (settles_at env2, getPodsByVersion env2 ''0.4.1'')
                          @ rejection (settles_at env3, getPodsByVersion env3 ''0.4.2'')
                          @ rejection (settles_at env4, getTotalPods env4))"
      and least: "\<forall>r \<in> set (rejection (settles_at env1, getPodsByVersion env1 ''0.4.0'')
                          @ rejection (settles_at env2, getPodsByVersion env2 ''0.4.1'')
                          @ rejection (settles_at env3, getPodsByVersion env3 ''0.4.2'')
                          @ rejection (settles_at env4, getTotalPods env4)). t \<le> fst r"
      and shown: "getPNodesInfo env1 env2 env3 env4 = ''Error retrieving data: '' @ message e"
    by blast
  have line: "CHR ''\<newline>'' \<in> set (getPNodesInfo env1 env2 env3 env4)
                 \<longleftrightarrow> CHR ''\<newline>'' \<in> set (message e)"
    unfolding shown by simp
  from first least shown line show ?thesis by blast
qed

theorem getPNodesInfo_failure_witness:
  "isl (getPodsByVersion \<lparr>clock = 7, network = always (http_failure 503 ''Service Unavailable''), settles_at = 5\<rparr> ''0.4.0'')
   \<and> getPNodesInfo
        \<lparr>clock = 7, network = always (http_failure 503 ''Service Unavailable''), settles_at = 5\<rparr>
        \<lparr>clock = 7, network = always (http_ok (rpc_error (- 32601) ''method not found'')), settles_at = 2\<rparr>
        \<lparr>clock = 7, network = always (http_ok (JObj [(''result'', example_pods)])), settles_at = 1\<rparr>
        \<lparr>clock = 7, network = always (http_ok (JObj [(''result'', example_pods)])), settles_at = 9\<rparr>
      = ''Error retrieving data: RPC error (-32601): method not found''"
proof -
  let ?a = "\<lparr>clock = 7, network = always (http_failure 503 ''Service Unavailable''), settles_at = 5\<rparr>"
  let ?b = "\<lparr>clock = 7, network = always (http_ok (rpc_error (- 32601) ''method not found'')), settles_at = 2\<rparr>"
  let ?c = "\<lparr>clock = 7, network = always (http_ok (JObj [(''result'', example_pods)])), settles_at = 1\<rparr>"
  let ?d = "\<lparr>clock = 7, network = always (http_ok (JObj [(''result'', example_pods)])), settles_at = 9\<rparr>"
  have a: "getPodsByVersion ?a ''0.4.0'' = Inl (Error ''RPC request failed: 503 Service Unavailable'')"
    by (simp add: getPodsByVersion_def rpcCall_def always_def http_failure_def show_nat.simps digit_char_def)
  have b: "getPodsByVersion ?b ''0.4.1'' = Inl (Error ''RPC error (-32601): method not found'')"
    by (simp add: getPodsByVersion_def rpcCall_http_ok rpc_error_def show_int_def show_nat.simps digit_char_def)
  have c: "getPodsByVersion ?c ''0.4.2'' = Inr 1"
    by (simp add: getPodsByVersion_def rpcCall_http_ok example_counts)
  have d: "getTotalPods ?d = Inr 4"
    by (simp add: getTotalPods_def rpcCall_http_ok example_counts)
  have raised: "isl (getPodsByVersion ?a ''0.4.0'') \<or> isl (getPodsByVersion ?b ''0.4.1'')
         \<or> isl (getPodsByVersion ?c ''0.4.2'') \<or> isl (getTotalPods ?d)"
    by (simp add: a)
  from getPNodesInfo_failure [OF raised]
  have "getPNodesInfo ?a ?b ?c ?d = ''Error retrieving data: RPC error (-32601): method not found''"
    unfolding a b c d by auto
  then show ?thesis by (simp add: a)
qed

subsection \<open>What the report depends on\<close>




end
